theory Spec2Isabelle
  imports
    Main
    "HOL-Library.Word"
    "HOL-Library.Sublist"
    "HOL-Library.Char_ord"
    "HOL-Library.List_Lexorder"
begin

unbundle bit_operations_syntax

section \<open>Data model of the transit tracker component\<close>

text \<open>
  The ESPHome colour value. Its constructor from a 32-bit number puts bits 16..23 into
  the red channel, 8..15 into green, 0..7 into blue and 24..31 into white.
\<close>

record Color =
  red :: "8 word"
  green :: "8 word"
  blue :: "8 word"
  white :: "8 word"

definition Color_of :: "32 word \<Rightarrow> Color" where
  "Color_of colorval =
     \<lparr> red = ucast (drop_bit 16 colorval AND 0xFF),
       green = ucast (drop_bit 8 colorval AND 0xFF),
       blue = ucast (colorval AND 0xFF),
       white = ucast (drop_bit 24 colorval AND 0xFF) \<rparr>"

text \<open>\<^verbatim>\<open>struct RouteStyle\<close> of transit_tracker.h.\<close>

record RouteStyle =
  style_name :: string
  style_color :: Color

text \<open>
  Modelled from the spec: the \<^verbatim>\<open>Trip\<close> struct of schedule_state.h, which is not among
  the sources. Its fields are those of section 3 of the specification, in the order of
  the designated initialiser in \<^verbatim>\<open>on_ws_message_\<close>; the two times are \<^verbatim>\<open>time_t\<close>
  values, read here as mathematical integers.
\<close>

record Trip =
  stop_id :: string
  route_id :: string
  route_name :: string
  route_color :: Color
  headsign :: string
  arrival_time :: int
  departure_time :: int
  is_realtime :: bool

text \<open>
  The members of \<^verbatim>\<open>class TransitTracker\<close> that the verified operations read or write,
  under their names without the trailing underscore.
  The two \<^verbatim>\<open>std::map\<close> tables that are iterated or searched are association lists
  kept in ascending key order (see \<open>map_put\<close> below); \<open>trips\<close> is
  \<^verbatim>\<open>schedule_state_.trips\<close>. Two fields stand for state that the component keeps in
  its ESPHome base class: \<open>status_error\<close> is the error status with its message
  (\<^verbatim>\<open>status_set_error\<close>, \<^verbatim>\<open>status_clear_error\<close>, \<^verbatim>\<open>status_has_error\<close>), and
  \<open>reconnect_timeout\<close> is the delay of the pending scheduler timeout named "reconnect"
  (\<^verbatim>\<open>set_timeout\<close> replaces a pending timeout of the same name).
\<close>

record TransitTracker =
  trips :: "Trip list"
  connection_attempts :: int
  last_heartbeat :: int
  has_ever_connected :: bool
  fully_closed :: bool
  base_url :: string
  abbreviations :: "(string \<times> string) list"
  default_route_color :: Color
  route_styles :: "(string \<times> RouteStyle) list"
  stop_names :: "(string \<times> string) list"
  stop_ids :: "string list"
  current_stop_index :: nat
  current_subpage_index :: int
  total_subpages_for_current_stop :: int
  last_displayed_stop_name :: string
  last_page_switch :: "32 word"
  current_page_duration :: "32 word"
  status_error :: "string option"
  reconnect_timeout :: "int option"

text \<open>The member initialisers of transit_tracker.h; the tables start empty.\<close>

definition initial_tracker :: TransitTracker where
  "initial_tracker =
     \<lparr> trips = [],
       connection_attempts = 0,
       last_heartbeat = 0,
       has_ever_connected = False,
       fully_closed = False,
       base_url = [],
       abbreviations = [],
       default_route_color = Color_of 0x028e51,
       route_styles = [],
       stop_names = [],
       stop_ids = [],
       current_stop_index = 0,
       current_subpage_index = 0,
       total_subpages_for_current_stop = 1,
       last_displayed_stop_name = [],
       last_page_switch = 0,
       current_page_duration = 0,
       status_error = None,
       reconnect_timeout = None \<rparr>"

section \<open>Connection manager\<close>

text \<open>
  \<^verbatim>\<open>App.reboot()\<close> runs the shutdown hooks and restarts the chip; it does not return to
  its caller. An operation that may reach it therefore ends either with the component
  still running, in a new state, or with the process restarted.
\<close>

datatype outcome = Running TransitTracker | Rebooted

text \<open>
  The attempt counter is an \<^verbatim>\<open>int\<close>. It starts at 0, grows by one per failed attempt
  and the call that makes it 15 restarts the process, so it stays far from the ends of
  its range and is a mathematical integer here.
\<close>

text \<open>
  What one call of \<^verbatim>\<open>connect_ws_\<close> observes of its collaborators:
  \<^verbatim>\<open>ws_client_.available(true)\<close>, \<^verbatim>\<open>esphome::network::is_connected()\<close>, and the result
  \<^verbatim>\<open>ws_client_.connect\<close> gives if it is called.
\<close>

record attempt =
  ws_available :: bool
  network_is_connected :: bool
  ws_connect :: bool

definition connect_ws :: "attempt \<Rightarrow> TransitTracker \<Rightarrow> outcome" where
  "connect_ws env st =
     (if base_url st = [] then Running st
      else if fully_closed st then Running st
      else if ws_available env then Running st
      else
        let st1 = st\<lparr>last_heartbeat := 0\<rparr>;
            connection_success =
              (if network_is_connected env then ws_connect env else False)
        in if \<not> connection_success then
             let st2 = st1\<lparr>connection_attempts := connection_attempts st1 + 1\<rparr>;
                 st3 = (if connection_attempts st2 \<ge> 3
                        then st2\<lparr>status_error := Some ''Failed to connect to WebSocket server''\<rparr>
                        else st2)
             in if connection_attempts st3 \<ge> 15 then Rebooted
                else
                  let timeout = min 15000 (connection_attempts st3 * 5000)
                  in Running (st3\<lparr>reconnect_timeout := Some timeout\<rparr>)
           else
             Running (st1\<lparr>has_ever_connected := True,
                           connection_attempts := 0,
                           status_error := None\<rparr>))"

text \<open>\<^verbatim>\<open>close(fully)\<close>: latches the flag; closing the transport changes no member.\<close>

definition close :: "bool \<Rightarrow> TransitTracker \<Rightarrow> TransitTracker" where
  "close fully st = (if fully then st\<lparr>fully_closed := True\<rparr> else st)"

text \<open>\<^verbatim>\<open>reconnect()\<close>; \<open>env\<close> is what \<^verbatim>\<open>connect_ws_\<close> observes after the close.\<close>

definition reconnect :: "attempt \<Rightarrow> TransitTracker \<Rightarrow> outcome" where
  "reconnect env st = connect_ws env (close False st)"

text \<open>
  The retries: when the "reconnect" timeout fires, the scheduler takes it off its list
  and runs its callback, which calls \<^verbatim>\<open>connect_ws_\<close> again. So each call of a run but
  the first starts with no timeout pending, and a delay found after a call is one that
  this very call scheduled. The log holds the outcome of each call that is executed;
  nothing is executed after a restart.
\<close>

definition timeout_fired :: "TransitTracker \<Rightarrow> TransitTracker" where
  "timeout_fired st = st\<lparr>reconnect_timeout := None\<rparr>"

fun attempt_log :: "attempt list \<Rightarrow> TransitTracker \<Rightarrow> outcome list" where
  "attempt_log [] st = []"
| "attempt_log (env # envs) st =
     (case connect_ws env st of
        Rebooted \<Rightarrow> [Rebooted]
      | Running st' \<Rightarrow> Running st' # attempt_log envs (timeout_fired st'))"

text \<open>An attempt fails when the client is not connected and no connection comes about.\<close>

definition failed_attempt :: "attempt \<Rightarrow> bool" where
  "failed_attempt env \<longleftrightarrow>
     \<not> ws_available env \<and> \<not> (network_is_connected env \<and> ws_connect env)"

definition retry_delay :: "outcome \<Rightarrow> int option" where
  "retry_delay r = (case r of Rebooted \<Rightarrow> None | Running st \<Rightarrow> reconnect_timeout st)"

definition attempts_of :: "outcome \<Rightarrow> int option" where
  "attempts_of r = (case r of Rebooted \<Rightarrow> None | Running st \<Rightarrow> Some (connection_attempts st))"

text \<open>Whether a logged call ended in the restart.\<close>

definition is_reboot :: "outcome \<Rightarrow> bool" where
  "is_reboot r = (case r of Rebooted \<Rightarrow> True | Running st \<Rightarrow> False)"

text \<open>Concrete inputs: a tracker with a feed URL configured and three kinds of attempt.\<close>

definition feed_tracker :: TransitTracker where
  "feed_tracker = initial_tracker\<lparr>base_url := ''ws://feed''\<rparr>"

definition no_link :: attempt where
  "no_link = \<lparr>ws_available = False, network_is_connected = False, ws_connect = False\<rparr>"

definition refused :: attempt where
  "refused = \<lparr>ws_available = False, network_is_connected = True, ws_connect = False\<rparr>"

definition accepted :: attempt where
  "accepted = \<lparr>ws_available = False, network_is_connected = True, ws_connect = True\<rparr>"

section \<open>Staleness watchdog\<close>

text \<open>The value of \<^verbatim>\<open>rtc_->now()\<close>: the timestamp and whether the clock is valid.\<close>

record ESPTime =
  timestamp :: int
  is_valid :: bool

text \<open>The scan of the cache in the "check_stale_trips" interval, with its \<^verbatim>\<open>break\<close>.\<close>

fun has_stale_trips :: "int \<Rightarrow> Trip list \<Rightarrow> bool" where
  "has_stale_trips now_ts [] = False"
| "has_stale_trips now_ts (trip # rest) =
     (if now_ts - departure_time trip > 60 then True else has_stale_trips now_ts rest)"

text \<open>
  Whether the interval's body reaches its call of \<^verbatim>\<open>reconnect()\<close>; \<open>available\<close> is
  \<^verbatim>\<open>ws_client_.available()\<close> and \<open>now\<close> is \<^verbatim>\<open>rtc_->now()\<close>.
\<close>

definition stale_trips_detected :: "bool \<Rightarrow> ESPTime \<Rightarrow> TransitTracker \<Rightarrow> bool" where
  "stale_trips_detected available now st =
     (if available \<and> trips st \<noteq> [] then
        (if is_valid now then has_stale_trips (timestamp now) (trips st) else False)
      else False)"

text \<open>One run of the interval; \<open>env\<close> is what the reconnect observes.\<close>

definition check_stale_trips ::
  "bool \<Rightarrow> ESPTime \<Rightarrow> attempt \<Rightarrow> TransitTracker \<Rightarrow> outcome" where
  "check_stale_trips available now env st =
     (if stale_trips_detected available now st then reconnect env st else Running st)"

text \<open>Concrete inputs: a trip that left at time 100, and a valid clock reading 1000.\<close>

definition departed_trip :: Trip where
  "departed_trip =
     \<lparr> stop_id = ''s1'', route_id = ''r1'', route_name = ''10'',
       route_color = Color_of 0x028e51, headsign = ''Downtown'',
       arrival_time = 90, departure_time = 100, is_realtime = True \<rparr>"

definition clock_1000 :: ESPTime where
  "clock_1000 = \<lparr> timestamp = 1000, is_valid = True \<rparr>"

section \<open>Pagination engine\<close>

text \<open>
  \<^verbatim>\<open>std::map::operator[]\<close> on a table held as an association list in ascending key
  order: \<open>map_put\<close> is the assignment \<^verbatim>\<open>m[k] = v\<close>, and \<open>map_index\<close> is the read
  \<^verbatim>\<open>m[k]\<close>, which inserts an empty value under a key that is missing.
\<close>

fun map_put :: "'k::linorder \<Rightarrow> 'v \<Rightarrow> ('k \<times> 'v) list \<Rightarrow> ('k \<times> 'v) list" where
  "map_put k v [] = [(k, v)]"
| "map_put k v ((k', v') # m) =
     (if k < k' then (k, v) # (k', v') # m
      else if k = k' then (k, v) # m
      else (k', v') # map_put k v m)"

definition map_index :: "string \<Rightarrow> (string \<times> string) list \<Rightarrow> (string \<times> string) list \<times> string" where
  "map_index k m = (case map_of m k of Some v \<Rightarrow> (m, v) | None \<Rightarrow> (map_put k [] m, []))"


text \<open>
  \<^verbatim>\<open>next_stop\<close>. The index stays below the number of stops, so the \<^verbatim>\<open>int\<close> index and
  the \<^verbatim>\<open>size_t\<close> remainder agree with the natural numbers used here.
\<close>

definition next_stop :: "TransitTracker \<Rightarrow> TransitTracker" where
  "next_stop st =
     (if stop_ids st = [] then st
      else
        let idx = (current_stop_index st + 1) mod length (stop_ids st);
            sid = stop_ids st ! idx;
            (names, current_stop_name) = map_index sid (stop_names st);
            st1 = st\<lparr>current_stop_index := idx, stop_names := names\<rparr>;
            st2 = (if current_stop_name = last_displayed_stop_name st1
                   then st1\<lparr>total_subpages_for_current_stop := 1\<rparr>
                   else st1\<lparr>total_subpages_for_current_stop := 2,
                            last_displayed_stop_name := current_stop_name\<rparr>)
        in st2\<lparr>current_subpage_index := 0\<rparr>)"








section \<open>Configuration tables\<close>

text \<open>\<^verbatim>\<open>add_abbreviation\<close> and \<^verbatim>\<open>add_route_style\<close> of transit_tracker.h.\<close>

definition add_abbreviation :: "string \<Rightarrow> string \<Rightarrow> TransitTracker \<Rightarrow> TransitTracker" where
  "add_abbreviation from to st = st\<lparr>abbreviations := map_put from to (abbreviations st)\<rparr>"

definition add_route_style ::
  "string \<Rightarrow> string \<Rightarrow> Color \<Rightarrow> TransitTracker \<Rightarrow> TransitTracker" where
  "add_route_style rid name color st =
     st\<lparr>route_styles := map_put rid \<lparr>style_name = name, style_color = color\<rparr> (route_styles st)\<rparr>"

text \<open>
  What ends a call early: \<^verbatim>\<open>std::stoul\<close> throws \<^verbatim>\<open>std::invalid_argument\<close> when no
  digit can be converted and \<^verbatim>\<open>std::out_of_range\<close> when the value does not fit, and a
  \<^verbatim>\<open>std::string\<close> cannot be built from a null pointer. No caller in the component
  catches either, so the exception ends the operation.
\<close>

datatype error = InvalidArgument | OutOfRange | NullString

text \<open>
  \<^verbatim>\<open>std::stoul(str, nullptr, 16)\<close>, which is \<^verbatim>\<open>strtoul\<close> in base 16 on the whole string:
  white space is skipped, a sign and a \<^verbatim>\<open>0x\<close> prefix are optional, and the longest run
  of hexadecimal digits is converted; what follows the digits is ignored. The result is
  an \<^verbatim>\<open>unsigned long\<close>, 32 bits wide on the target; a minus sign negates it modulo
  \<open>2 ^ 32\<close>.
\<close>

definition isspace :: "char \<Rightarrow> bool" where
  "isspace c \<longleftrightarrow> c \<in> set [CHR '' '', CHR 0x09, CHR 0x0A, CHR 0x0B, CHR 0x0C, CHR 0x0D]"

definition hex_digit :: "char \<Rightarrow> int option" where
  "hex_digit c =
     (let n = (of_char c :: int) in
      if 48 \<le> n \<and> n \<le> 57 then Some (n - 48)
      else if 97 \<le> n \<and> n \<le> 102 then Some (n - 87)
      else if 65 \<le> n \<and> n \<le> 70 then Some (n - 55)
      else None)"

definition is_hex :: "char \<Rightarrow> bool" where
  "is_hex c \<longleftrightarrow> hex_digit c \<noteq> None"

definition digits_value :: "string \<Rightarrow> int" where
  "digits_value ds = foldl (\<lambda>acc c. acc * 16 + the (hex_digit c)) 0 ds"

definition strip_sign :: "string \<Rightarrow> bool \<times> string" where
  "strip_sign s =
     (case s of
        c # r \<Rightarrow> if c = CHR ''-'' then (True, r)
                 else if c = CHR ''+'' then (False, r)
                 else (False, s)
      | [] \<Rightarrow> (False, s))"

definition strip_0x :: "string \<Rightarrow> string" where
  "strip_0x s =
     (case s of
        z # x # d # r \<Rightarrow>
          if z = CHR ''0'' \<and> (x = CHR ''x'' \<or> x = CHR ''X'') \<and> is_hex d then d # r else s
      | _ \<Rightarrow> s)"

definition stoul16 :: "string \<Rightarrow> error + 32 word" where
  "stoul16 str =
     (let (neg, s2) = strip_sign (dropWhile isspace str);
          ds = takeWhile is_hex (strip_0x s2)
      in if ds = [] then Inl InvalidArgument
         else if digits_value ds \<ge> 2 ^ 32 then Inl OutOfRange
         else Inr (if neg then - of_int (digits_value ds) else of_int (digits_value ds)))"

text \<open>
  The two loaders. Their helper \<^verbatim>\<open>split\<close> is declared in string_utils.h, which is not
  among the sources, so it is a parameter here: every statement about the loaders holds
  for whatever \<^verbatim>\<open>split\<close> computes. The table is cleared, then the lines are taken in
  order; a line with the wrong number of fields is passed over (\<^verbatim>\<open>continue\<close>).
\<close>

fun abbreviation_lines ::
  "(string \<Rightarrow> char \<Rightarrow> string list) \<Rightarrow> string list \<Rightarrow> TransitTracker \<Rightarrow> TransitTracker" where
  "abbreviation_lines split [] st = st"
| "abbreviation_lines split (line # lines) st =
     (let parts = split line (CHR '';'') in
      if length parts \<noteq> 2 then abbreviation_lines split lines st
      else abbreviation_lines split lines (add_abbreviation (parts ! 0) (parts ! 1) st))"

definition set_abbreviations_from_text ::
  "(string \<Rightarrow> char \<Rightarrow> string list) \<Rightarrow> string \<Rightarrow> TransitTracker \<Rightarrow> TransitTracker" where
  "set_abbreviations_from_text split text st =
     abbreviation_lines split (split text (CHR 0x0A)) (st\<lparr>abbreviations := []\<rparr>)"

fun route_style_lines ::
  "(string \<Rightarrow> char \<Rightarrow> string list) \<Rightarrow> string list \<Rightarrow> TransitTracker
     \<Rightarrow> error + TransitTracker" where
  "route_style_lines split [] st = Inr st"
| "route_style_lines split (line # lines) st =
     (let parts = split line (CHR '';'') in
      if length parts \<noteq> 3 then route_style_lines split lines st
      else case stoul16 (parts ! 2) of
             Inl e \<Rightarrow> Inl e
           | Inr color \<Rightarrow>
               route_style_lines split lines
                 (add_route_style (parts ! 0) (parts ! 1) (Color_of color) st))"

definition set_route_styles_from_text ::
  "(string \<Rightarrow> char \<Rightarrow> string list) \<Rightarrow> string \<Rightarrow> TransitTracker
     \<Rightarrow> error + TransitTracker" where
  "set_route_styles_from_text split text st =
     route_style_lines split (split text (CHR 0x0A)) (st\<lparr>route_styles := []\<rparr>)"

text \<open>
  Modelled from the spec: the helper \<^verbatim>\<open>split\<close> of string_utils.h, which is not among
  the sources. Section 6 of the specification gives the rules as \<^verbatim>\<open>from;to\<close> and
  \<^verbatim>\<open>route_id;name;hex_color\<close> lines; this splitter cuts at every delimiter and returns
  the fields between. It is used for concrete inputs only.
\<close>

fun split_fields :: "string \<Rightarrow> char \<Rightarrow> string list" where
  "split_fields [] d = [[]]"
| "split_fields (c # cs) d =
     (if c = d then [] # split_fields cs d
      else case split_fields cs d of
             f # fs \<Rightarrow> (c # f) # fs
           | [] \<Rightarrow> [[c]])"

text \<open>The fields of the lines that a loader accepts, in the order of the text.\<close>

definition accepted_lines ::
  "(string \<Rightarrow> char \<Rightarrow> string list) \<Rightarrow> nat \<Rightarrow> string \<Rightarrow> string list list" where
  "accepted_lines split n text =
     filter (\<lambda>parts. length parts = n) (map (\<lambda>line. split line (CHR '';'')) (split text (CHR 0x0A)))"

text \<open>
  What the accepted lines stand for: an abbreviation line for the pair of its two
  fields, a route style line for its key and style, or for the error its colour field
  raises; and a sequence of route style lines for their entries, or for the first error.
  \<open>put_all\<close> stores entries one after the other.
\<close>

definition abbreviation_entry :: "string list \<Rightarrow> string \<times> string" where
  "abbreviation_entry parts = (parts ! 0, parts ! 1)"

definition style_entry :: "string list \<Rightarrow> error + (string \<times> RouteStyle)" where
  "style_entry parts =
     (case stoul16 (parts ! 2) of
        Inl e \<Rightarrow> Inl e
      | Inr color \<Rightarrow> Inr (parts ! 0, \<lparr>style_name = parts ! 1, style_color = Color_of color\<rparr>))"

fun style_entries :: "string list list \<Rightarrow> error + (string \<times> RouteStyle) list" where
  "style_entries [] = Inr []"
| "style_entries (parts # rest) =
     (case style_entry parts of
        Inl e \<Rightarrow> Inl e
      | Inr kv \<Rightarrow> (case style_entries rest of Inl e \<Rightarrow> Inl e | Inr kvs \<Rightarrow> Inr (kv # kvs)))"

definition put_all :: "('k::linorder \<times> 'v) list \<Rightarrow> ('k \<times> 'v) list \<Rightarrow> ('k \<times> 'v) list" where
  "put_all kvs m = foldl (\<lambda>m kv. map_put (fst kv) (snd kv) m) m kvs"

text \<open>Concrete inputs: two configuration texts, each with lines that are passed over.\<close>

definition abbreviation_text :: string where
  "abbreviation_text = ''Street;St\<newline>no separator\<newline>Avenue;Ave\<newline>a;b;c\<newline>Street;Str''"

definition route_style_text :: string where
  "route_style_text = ''10;Ten;ff0000\<newline>10;Ten\<newline>2;Two;00FF00''"

section \<open>Schedule decoder\<close>

text \<open>
  A decoded JSON document, as the handler reads it through the JSON library. A member
  read on anything but an object, and a missing member, give null;
  \<^verbatim>\<open>as<const char*>()\<close> gives a null pointer for anything but a string, and
  \<^verbatim>\<open>as<JsonArray>()\<close> an empty array for anything but an array. Numbers are integers
  here. For a member that is not a number or not a boolean, the times read as 0 and the
  flag as false; the payloads of the statements below have these members well typed.
\<close>

datatype json =
  JNull
| JBool bool
| JNumber int
| JString string
| JArray "json list"
| JObject "(string \<times> json) list"

fun json_member :: "json \<Rightarrow> string \<Rightarrow> json" where
  "json_member (JObject kvs) key = (case map_of kvs key of Some v \<Rightarrow> v | None \<Rightarrow> JNull)"
| "json_member j key = JNull"

fun as_cstr :: "json \<Rightarrow> string option" where
  "as_cstr (JString s) = Some s"
| "as_cstr j = None"

fun isNull :: "json \<Rightarrow> bool" where
  "isNull JNull = True"
| "isNull j = False"

fun as_JsonArray :: "json \<Rightarrow> json list" where
  "as_JsonArray (JArray xs) = xs"
| "as_JsonArray j = []"

fun as_time_t :: "json \<Rightarrow> int" where
  "as_time_t (JNumber n) = n"
| "as_time_t j = 0"

fun as_bool :: "json \<Rightarrow> bool" where
  "as_bool (JBool b) = b"
| "as_bool j = False"

text \<open>
  \<^verbatim>\<open>std::string::find\<close> from position 0 (\<open>None\<close> is \<^verbatim>\<open>npos\<close>) and
  \<^verbatim>\<open>std::string::replace(pos, len, str)\<close>.
\<close>

fun find_str :: "string \<Rightarrow> string \<Rightarrow> nat option" where
  "find_str [] needle = (if needle = [] then Some 0 else None)"
| "find_str (c # cs) needle =
     (if prefix needle (c # cs) then Some 0 else map_option Suc (find_str cs needle))"

definition replace_at :: "nat \<Rightarrow> nat \<Rightarrow> string \<Rightarrow> string \<Rightarrow> string" where
  "replace_at pos len str s = take pos s @ str @ drop (pos + len) s"

text \<open>
  The body of the loop over the abbreviation table, and the loop, which takes the
  entries in the order of the table and works on the headsign as it stands.
\<close>

definition apply_abbreviation :: "string \<times> string \<Rightarrow> string \<Rightarrow> string" where
  "apply_abbreviation abbr hs =
     (case find_str hs (fst abbr) of
        None \<Rightarrow> hs
      | Some pos \<Rightarrow> replace_at pos (length (fst abbr)) (snd abbr) hs)"

fun apply_abbreviations :: "(string \<times> string) list \<Rightarrow> string \<Rightarrow> string" where
  "apply_abbreviations [] hs = hs"
| "apply_abbreviations (abbr # abbrs) hs =
     apply_abbreviations abbrs (apply_abbreviation abbr hs)"

text \<open>
  The body of the loop over the trips of a schedule message: one entry to one
  \<^verbatim>\<open>Trip\<close>. A string member that is not a string gives a null pointer, from which no
  \<^verbatim>\<open>std::string\<close> can be built. The locals \<open>hs\<close>, \<open>sid\<close>, \<open>rid\<close> and \<open>rname\<close> are
  \<^verbatim>\<open>headsign\<close>, \<^verbatim>\<open>stop_id\<close>, \<^verbatim>\<open>route_id\<close> and \<^verbatim>\<open>route_name\<close>.
\<close>

definition decode_trip :: "TransitTracker \<Rightarrow> json \<Rightarrow> error + Trip" where
  "decode_trip st trip =
     (case as_cstr (json_member trip ''headsign'') of
        None \<Rightarrow> Inl NullString
      | Some hs0 \<Rightarrow>
     let hs = apply_abbreviations (abbreviations st) hs0 in
     (case as_cstr (json_member trip ''stopId'') of
        None \<Rightarrow> Inl NullString
      | Some sid \<Rightarrow>
     (case as_cstr (json_member trip ''routeId'') of
        None \<Rightarrow> Inl NullString
      | Some rid \<Rightarrow>
     (case as_cstr (json_member trip ''routeName'') of
        None \<Rightarrow> Inl NullString
      | Some rname \<Rightarrow>
     let make = (\<lambda>name color.
           \<lparr> stop_id = sid, route_id = rid, route_name = name,
             route_color = color, headsign = hs,
             arrival_time = as_time_t (json_member trip ''arrivalTime''),
             departure_time = as_time_t (json_member trip ''departureTime''),
             is_realtime = as_bool (json_member trip ''isRealtime'') \<rparr>)
     in
     (case map_of (route_styles st) rid of
        Some route_style \<Rightarrow> Inr (make (style_name route_style) (style_color route_style))
      | None \<Rightarrow>
          if \<not> isNull (json_member trip ''routeColor'') then
            (case as_cstr (json_member trip ''routeColor'') of
               None \<Rightarrow> Inl NullString
             | Some hex \<Rightarrow>
                 (case stoul16 hex of
                    Inl e \<Rightarrow> Inl e
                  | Inr colorval \<Rightarrow> Inr (make rname (Color_of colorval))))
          else Inr (make rname (default_route_color st)))))))"

fun decode_trips :: "TransitTracker \<Rightarrow> json list \<Rightarrow> error + Trip list" where
  "decode_trips st [] = Inr []"
| "decode_trips st (trip # rest) =
     (case decode_trip st trip of
        Inl e \<Rightarrow> Inl e
      | Inr t \<Rightarrow> (case decode_trips st rest of Inl e \<Rightarrow> Inl e | Inr ts \<Rightarrow> Inr (t # ts)))"

text \<open>
  \<^verbatim>\<open>on_ws_message_\<close>. Its inputs are whether the buffer for the document could be
  allocated, the result of \<^verbatim>\<open>deserializeJson\<close> on the raw data (\<open>None\<close> for an error,
  which includes a document too large for the buffer), and the value of \<^verbatim>\<open>millis()\<close>.
  The event is the empty string when the member is missing or not a string. The cache
  is cleared and refilled in place; an exception in the loop ends the call. The mutex
  that is held around the update has no effect within one execution context and is
  left out.
\<close>

definition event_of :: "json \<Rightarrow> string" where
  "event_of root = (case as_cstr (json_member root ''event'') of Some s \<Rightarrow> s | None \<Rightarrow> [])"

definition schedule_entries :: "json \<Rightarrow> json list" where
  "schedule_entries root = as_JsonArray (json_member (json_member root ''data'') ''trips'')"

definition on_ws_message ::
  "bool \<Rightarrow> json option \<Rightarrow> int \<Rightarrow> TransitTracker \<Rightarrow> error + TransitTracker" where
  "on_ws_message doc_mem parsed now_ms st =
     (if \<not> doc_mem then Inr (st\<lparr>status_error := Some ''No PSRAM for JSON doc''\<rparr>)
      else
        (case parsed of
           None \<Rightarrow> Inr (st\<lparr>status_error := Some ''Failed to parse schedule data''\<rparr>)
         | Some root \<Rightarrow>
             (let event = event_of root in
              if event = ''heartbeat'' then Inr (st\<lparr>last_heartbeat := now_ms\<rparr>)
              else if event \<noteq> ''schedule'' then
                Inr (st\<lparr>status_error := Some ''Failed to parse schedule data''\<rparr>)
              else
                (let st1 = st\<lparr>trips := []\<rparr>
                 in (case decode_trips st1 (schedule_entries root) of
                       Inl e \<Rightarrow> Inl e
                     | Inr ts \<Rightarrow> Inr (st1\<lparr>trips := ts\<rparr>))))))"

text \<open>
  The value of a string of hexadecimal digits, by position: the last digit counts
  once, the one before it sixteen times, and so on.
\<close>

fun positional_value :: "string \<Rightarrow> int" where
  "positional_value [] = 0"
| "positional_value (c # cs) = the (hex_digit c) * 16 ^ length cs + positional_value cs"

text \<open>
  A trip entry of a valid schedule payload, after section 6 of the specification:
  the four names are strings, the two times numbers, the flag a boolean, and the
  colour is absent (null) or a string of hexadecimal digits, without a prefix, whose
  value fits 32 bits.
\<close>

fun is_JString :: "json \<Rightarrow> bool" where
  "is_JString (JString s) = True"
| "is_JString j = False"

fun is_JNumber :: "json \<Rightarrow> bool" where
  "is_JNumber (JNumber n) = True"
| "is_JNumber j = False"

fun is_JBool :: "json \<Rightarrow> bool" where
  "is_JBool (JBool b) = True"
| "is_JBool j = False"

fun valid_routeColor :: "json \<Rightarrow> bool" where
  "valid_routeColor JNull = True"
| "valid_routeColor (JString hex) =
     (hex \<noteq> [] \<and> list_all is_hex hex \<and> positional_value hex < 2 ^ 32)"
| "valid_routeColor j = False"

definition valid_trip_entry :: "json \<Rightarrow> bool" where
  "valid_trip_entry trip \<longleftrightarrow>
     is_JString (json_member trip ''headsign'') \<and> is_JString (json_member trip ''stopId'')
   \<and> is_JString (json_member trip ''routeId'') \<and> is_JString (json_member trip ''routeName'')
   \<and> valid_routeColor (json_member trip ''routeColor'')
   \<and> is_JNumber (json_member trip ''arrivalTime'')
   \<and> is_JNumber (json_member trip ''departureTime'')
   \<and> is_JBool (json_member trip ''isRealtime'')"

text \<open>
  The route colour and route name the specification gives a trip entry: from the
  style of its route if there is one, else from its own colour if it has one, else the
  default; the name is replaced only by a style.
\<close>

definition expected_route_color :: "TransitTracker \<Rightarrow> json \<Rightarrow> Color" where
  "expected_route_color st trip =
     (case map_of (route_styles st) (the (as_cstr (json_member trip ''routeId''))) of
        Some route_style \<Rightarrow> style_color route_style
      | None \<Rightarrow>
          (case json_member trip ''routeColor'' of
             JString hex \<Rightarrow> Color_of (of_int (positional_value hex))
           | _ \<Rightarrow> default_route_color st))"

definition expected_route_name :: "TransitTracker \<Rightarrow> json \<Rightarrow> string" where
  "expected_route_name st trip =
     (case map_of (route_styles st) (the (as_cstr (json_member trip ''routeId''))) of
        Some route_style \<Rightarrow> style_name route_style
      | None \<Rightarrow> the (as_cstr (json_member trip ''routeName'')))"

text \<open>
  Concrete inputs: a tracker with two abbreviations, the first of which writes the text
  of the second, and one route style; a trip entry; and a schedule message with a trip
  on the styled route, one with a colour of its own and one without a colour.
\<close>

definition airport_tracker :: TransitTracker where
  "airport_tracker =
     add_route_style ''r1'' ''Red Line'' (Color_of 0xFF0000)
       (add_abbreviation ''Airport'' ''Terminal''
          (add_abbreviation ''Terminal'' ''Term'' feed_tracker))"

definition trip_json :: "string \<Rightarrow> string \<Rightarrow> json \<Rightarrow> json" where
  "trip_json rid hs color =
     JObject [(''headsign'', JString hs), (''stopId'', JString ''s1''),
              (''routeId'', JString rid), (''routeName'', JString ''10''),
              (''routeColor'', color), (''arrivalTime'', JNumber 1000),
              (''departureTime'', JNumber 1060), (''isRealtime'', JBool True)]"

definition schedule_json :: json where
  "schedule_json =
     JObject [(''event'', JString ''schedule''),
       (''data'', JObject [(''trips'', JArray
          [trip_json ''r1'' ''Airport'' (JString ''00ff00''),
           trip_json ''r2'' ''Main Street'' (JString ''00ff00''),
           trip_json ''r3'' ''Terminal 2'' JNull])])]"

section \<open>Verified properties\<close>

subsection \<open>Connection manager: retries, restart, early returns\<close>

text \<open>A failed attempt on a configured, open tracker: the whole effect of the call.\<close>

lemma connect_ws_failed:
  assumes "base_url st \<noteq> []" "\<not> fully_closed st" "failed_attempt env"
  shows "connect_ws env st =
     (if 15 \<le> connection_attempts st + 1 then Rebooted
      else Running (st\<lparr>last_heartbeat := 0,
             connection_attempts := connection_attempts st + 1,
             status_error := (if 3 \<le> connection_attempts st + 1
                              then Some ''Failed to connect to WebSocket server''
                              else status_error st),
             reconnect_timeout := Some (min 15000 ((connection_attempts st + 1) * 5000))\<rparr>))"
  using assms unfolding connect_ws_def failed_attempt_def Let_def
  by auto

text \<open>
  A run of failed attempts that starts with the counter at \<open>k\<close>: how long the log is, where
  the restart stands in it, and what every earlier call leaves behind.
\<close>

lemma attempt_log_failed:
  assumes "\<forall>env \<in> set envs. failed_attempt env"
    and "base_url st \<noteq> []" and "\<not> fully_closed st"
    and "connection_attempts st = k" and "k < 15"
  shows "length (attempt_log envs st) = min (length envs) (nat (15 - k))
     \<and> (\<forall>i < length (attempt_log envs st).
          (attempt_log envs st ! i = Rebooted \<longleftrightarrow> k + int i + 1 = 15)
        \<and> (k + int i + 1 < 15 \<longrightarrow>
             retry_delay (attempt_log envs st ! i) = Some (min 15000 ((k + int i + 1) * 5000))
           \<and> attempts_of (attempt_log envs st ! i) = Some (k + int i + 1)))"
  using assms
proof (induction envs arbitrary: st k)
  case Nil
  then show ?case by simp
next
  case (Cons env envs)
  have f: "failed_attempt env" using Cons.prems(1) by simp
  note c = connect_ws_failed [OF Cons.prems(2) Cons.prems(3) f]
  show ?case
  proof (cases "15 \<le> k + 1")
    case True
    then have "connect_ws env st = Rebooted" using c Cons.prems(4) by simp
    then show ?thesis using True Cons.prems(5) by (auto simp: nat_diff_distrib)
  next
    case False
    define st' where "st' = st\<lparr>last_heartbeat := 0,
             connection_attempts := connection_attempts st + 1,
             status_error := (if 3 \<le> connection_attempts st + 1
                              then Some ''Failed to connect to WebSocket server''
                              else status_error st),
             reconnect_timeout := Some (min 15000 ((connection_attempts st + 1) * 5000))\<rparr>"
    have r: "connect_ws env st = Running st'" using c False Cons.prems(4) by (simp add: st'_def)
    define sf where "sf = timeout_fired st'"
    have ih: "length (attempt_log envs sf) = min (length envs) (nat (15 - (k+1)))
     \<and> (\<forall>i < length (attempt_log envs sf).
          (attempt_log envs sf ! i = Rebooted \<longleftrightarrow> (k+1) + int i + 1 = 15)
        \<and> ((k+1) + int i + 1 < 15 \<longrightarrow>
             retry_delay (attempt_log envs sf ! i) = Some (min 15000 (((k+1) + int i + 1) * 5000))
           \<and> attempts_of (attempt_log envs sf ! i) = Some ((k+1) + int i + 1)))"
      by (rule Cons.IH) (use Cons.prems False in \<open>auto simp: st'_def sf_def timeout_fired_def\<close>)
    have l: "attempt_log (env # envs) st = Running st' # attempt_log envs sf"
      using r by (simp add: sf_def)
    have len: "length (attempt_log (env # envs) st) = min (length (env # envs)) (nat (15 - k))"
      using ih False unfolding l by auto
    have nth: "(attempt_log (env # envs) st ! i = Rebooted \<longleftrightarrow> k + int i + 1 = 15)
        \<and> (k + int i + 1 < 15 \<longrightarrow>
             retry_delay (attempt_log (env # envs) st ! i) = Some (min 15000 ((k + int i + 1) * 5000))
           \<and> attempts_of (attempt_log (env # envs) st ! i) = Some (k + int i + 1))"
      if "i < length (attempt_log (env # envs) st)" for i
    proof (cases i)
      case 0
      then show ?thesis using False Cons.prems(4)
        unfolding l by (simp add: retry_delay_def attempts_of_def st'_def)
    next
      case (Suc j)
      then have "j < length (attempt_log envs sf)" using that unfolding l by simp
      then show ?thesis using ih Suc unfolding l by (simp add: algebra_simps)
    qed
    show ?thesis using len nth by blast
  qed
qed


lemma count_single_index:
  assumes "\<forall>i < length xs. P (xs ! i) \<longleftrightarrow> i = m"
  shows "length (filter P xs) = (if m < length xs then 1 else 0)"
proof -
  have "{i. i < length xs \<and> P (xs ! i)} = (if m < length xs then {m} else {})"
    using assms by auto
  then show ?thesis by (simp add: length_filter_conv_card)
qed

lemma attempt_log_fresh:
  assumes "\<forall>env \<in> set envs. failed_attempt env"
    and "base_url st \<noteq> []" and "\<not> fully_closed st" and "connection_attempts st = 0"
  shows "length (attempt_log envs st) = min (length envs) 15"
    and "i < length (attempt_log envs st) \<Longrightarrow> attempt_log envs st ! i = Rebooted \<longleftrightarrow> i = 14"
    and "i < length (attempt_log envs st) \<Longrightarrow> i < 14 \<Longrightarrow>
           retry_delay (attempt_log envs st ! i) = Some (min 15000 ((int i + 1) * 5000))
         \<and> attempts_of (attempt_log envs st ! i) = Some (int i + 1)"
proof -
  have k: "(0::int) < 15" by simp
  note log = attempt_log_failed [OF assms(1) assms(2) assms(3) assms(4) k]
  show "length (attempt_log envs st) = min (length envs) 15" using log by simp
  show "attempt_log envs st ! i = Rebooted \<longleftrightarrow> i = 14" if "i < length (attempt_log envs st)"
    using log that by auto
  show "retry_delay (attempt_log envs st ! i) = Some (min 15000 ((int i + 1) * 5000))
         \<and> attempts_of (attempt_log envs st ! i) = Some (int i + 1)"
    if "i < length (attempt_log envs st)" "i < 14"
    using log that by auto
qed

text \<open>
  C5. A failed attempt that leaves the counter at \<open>n\<close> below 15 schedules the retry
  after \<open>min 15000 (n * 5000)\<close> milliseconds, whatever timeout was or was not pending
  before the call. In a run of consecutive failed attempts that starts with the counter
  at 0, where every retry starts with no timeout pending, the \<open>n\<close>-th attempt,
  whenever it is executed, leaves the counter at \<open>n\<close> and schedules the retry after
  5000 milliseconds for the first, 10000 for the second, 15000 for the third and for
  every later one. The one exception is the fifteenth, which is the last that is
  executed and schedules nothing, because it restarts the process. A successful connect
  puts the counter back to 0 in the same call, whatever it was.
\<close>

theorem backoff_schedule:
  assumes "\<forall>env \<in> set envs. failed_attempt env"
    and "base_url st \<noteq> []" and "\<not> fully_closed st" and "connection_attempts st = 0"
  shows "(1 \<le> n \<and> n \<le> length (attempt_log envs st) \<longrightarrow>
           retry_delay (attempt_log envs st ! (n - 1))
             = (if n = 15 then None else Some (min 15000 (int n * 5000)))
         \<and> attempts_of (attempt_log envs st ! (n - 1)) = (if n = 15 then None else Some (int n))
         \<and> retry_delay (attempt_log envs st ! (n - 1))
             = (if n = 15 then None
                else Some (if n = 1 then 5000 else if n = 2 then 10000 else 15000)))
       \<and> length (attempt_log envs st) = min (length envs) 15
       \<and> (base_url st1 \<noteq> [] \<and> \<not> fully_closed st1 \<and> failed_attempt env1
           \<and> connection_attempts st1 + 1 < 15 \<longrightarrow>
           retry_delay (connect_ws env1 (st1\<lparr>reconnect_timeout := pending\<rparr>))
             = Some (min 15000 ((connection_attempts st1 + 1) * 5000))
         \<and> attempts_of (connect_ws env1 (st1\<lparr>reconnect_timeout := pending\<rparr>))
             = Some (connection_attempts st1 + 1))
       \<and> (base_url st0 \<noteq> [] \<and> \<not> fully_closed st0 \<and> \<not> ws_available env0
           \<and> network_is_connected env0 \<and> ws_connect env0 \<longrightarrow>
           (\<exists>st'. connect_ws env0 st0 = Running st' \<and> connection_attempts st' = 0))"
proof (intro conjI impI)
  note log = attempt_log_fresh [OF assms]
  show "length (attempt_log envs st) = min (length envs) 15" by (rule log(1))
  assume n: "1 \<le> n \<and> n \<le> length (attempt_log envs st)"
  have len: "n - 1 < length (attempt_log envs st)" using n by linarith
  have n15: "n \<le> 15" using n log(1) by linarith
  have last: "attempt_log envs st ! (n - 1) = Rebooted \<longleftrightarrow> n = 15"
    using log(2) [OF len] n by auto
  have early: "retry_delay (attempt_log envs st ! (n - 1)) = Some (min 15000 (int n * 5000))
      \<and> attempts_of (attempt_log envs st ! (n - 1)) = Some (int n)" if "n \<noteq> 15"
  proof -
    have "n - 1 < 14" using that n15 n by linarith
    then have "retry_delay (attempt_log envs st ! (n - 1))
          = Some (min 15000 ((int (n - 1) + 1) * 5000))
      \<and> attempts_of (attempt_log envs st ! (n - 1)) = Some (int (n - 1) + 1)"
      using log(3) len by blast
    moreover have "int (n - 1) + 1 = int n" using n by simp
    ultimately show ?thesis by simp
  qed
  have late: "retry_delay (attempt_log envs st ! (n - 1)) = None
      \<and> attempts_of (attempt_log envs st ! (n - 1)) = None" if "n = 15"
  proof -
    have "attempt_log envs st ! (n - 1) = Rebooted" using last that by simp
    then show ?thesis by (simp add: retry_delay_def attempts_of_def)
  qed
  show d: "retry_delay (attempt_log envs st ! (n - 1))
             = (if n = 15 then None else Some (min 15000 (int n * 5000)))"
    using late early by (cases "n = 15") simp_all
  show "attempts_of (attempt_log envs st ! (n - 1)) = (if n = 15 then None else Some (int n))"
    using late early by (cases "n = 15") simp_all
  have "min 15000 (int n * 5000) = (if n = 1 then 5000 else if n = 2 then 10000 else 15000)"
    using n by auto
  with d show "retry_delay (attempt_log envs st ! (n - 1))
             = (if n = 15 then None
                else Some (if n = 1 then 5000 else if n = 2 then 10000 else 15000))"
    by simp
next
  assume a: "base_url st1 \<noteq> [] \<and> \<not> fully_closed st1 \<and> failed_attempt env1
           \<and> connection_attempts st1 + 1 < 15"
  let ?s = "st1\<lparr>reconnect_timeout := pending\<rparr>"
  have b: "base_url ?s \<noteq> []" and f: "\<not> fully_closed ?s" and e: "failed_attempt env1"
    using a by simp_all
  note c = connect_ws_failed [OF b f e]
  show "retry_delay (connect_ws env1 ?s) = Some (min 15000 ((connection_attempts st1 + 1) * 5000))"
    using a unfolding c by (simp add: retry_delay_def)
  show "attempts_of (connect_ws env1 ?s) = Some (connection_attempts st1 + 1)"
    using a unfolding c by (simp add: attempts_of_def)
next
  assume "base_url st0 \<noteq> [] \<and> \<not> fully_closed st0 \<and> \<not> ws_available env0
           \<and> network_is_connected env0 \<and> ws_connect env0"
  then show "\<exists>st'. connect_ws env0 st0 = Running st' \<and> connection_attempts st' = 0"
    by (simp add: connect_ws_def)
qed

theorem backoff_schedule_witness:
  "list_all failed_attempt [refused, no_link, refused, refused]
   \<and> base_url feed_tracker \<noteq> [] \<and> \<not> fully_closed feed_tracker
   \<and> connection_attempts feed_tracker = 0
   \<and> map retry_delay (attempt_log [refused, no_link, refused, refused] feed_tracker)
       = [Some 5000, Some 10000, Some 15000, Some 15000]
   \<and> retry_delay (attempt_log [refused, no_link, refused, refused] feed_tracker ! (4 - 1))
       = Some (min 15000 (int 4 * 5000))
   \<and> reconnect_timeout (feed_tracker\<lparr>connection_attempts := 3\<rparr>) = None
   \<and> failed_attempt refused
   \<and> connection_attempts (feed_tracker\<lparr>connection_attempts := 3\<rparr>) + 1 < 15
   \<and> retry_delay (connect_ws refused
        (feed_tracker\<lparr>connection_attempts := 3, reconnect_timeout := None\<rparr>)) = Some 15000
   \<and> retry_delay (connect_ws refused
        (feed_tracker\<lparr>connection_attempts := 3, reconnect_timeout := Some 1\<rparr>)) = Some 15000
   \<and> (\<exists>st'. connect_ws accepted (feed_tracker\<lparr>connection_attempts := 7\<rparr>) = Running st'
         \<and> connection_attempts st' = 0)"
proof -
  have h1: "\<forall>env \<in> set [refused, no_link, refused, refused]. failed_attempt env"
    by (simp add: failed_attempt_def refused_def no_link_def)
  have h2: "base_url feed_tracker \<noteq> []" and h3: "\<not> fully_closed feed_tracker"
    and h4: "connection_attempts feed_tracker = 0"
    by (simp_all add: feed_tracker_def initial_tracker_def)
  have s: "base_url (feed_tracker\<lparr>connection_attempts := 7\<rparr>) \<noteq> []
     \<and> \<not> fully_closed (feed_tracker\<lparr>connection_attempts := 7\<rparr>) \<and> \<not> ws_available accepted
     \<and> network_is_connected accepted \<and> ws_connect accepted"
    by (simp add: feed_tracker_def initial_tracker_def accepted_def)
  have p: "base_url (feed_tracker\<lparr>connection_attempts := 3\<rparr>) \<noteq> []
     \<and> \<not> fully_closed (feed_tracker\<lparr>connection_attempts := 3\<rparr>) \<and> failed_attempt refused
     \<and> connection_attempts (feed_tracker\<lparr>connection_attempts := 3\<rparr>) + 1 < 15"
    by (simp add: feed_tracker_def initial_tracker_def failed_attempt_def refused_def)
  have q: "reconnect_timeout (feed_tracker\<lparr>connection_attempts := 3\<rparr>) = None"
    by (simp add: feed_tracker_def initial_tracker_def)
  have m: "map retry_delay (attempt_log [refused, no_link, refused, refused] feed_tracker)
       = [Some 5000, Some 10000, Some 15000, Some 15000]"
    by (simp add: connect_ws_def retry_delay_def refused_def no_link_def feed_tracker_def
        initial_tracker_def timeout_fired_def)
  have l: "(1::nat) \<le> 4 \<and> 4 \<le> length (attempt_log [refused, no_link, refused, refused] feed_tracker)"
    using arg_cong [OF m, of length] by simp
  have t1: "retry_delay (attempt_log [refused, no_link, refused, refused] feed_tracker ! (4 - 1))
       = Some (min 15000 (int 4 * 5000))
     \<and> retry_delay (connect_ws refused
          (feed_tracker\<lparr>connection_attempts := 3, reconnect_timeout := None\<rparr>)) = Some 15000
     \<and> (\<exists>st'. connect_ws accepted (feed_tracker\<lparr>connection_attempts := 7\<rparr>) = Running st'
         \<and> connection_attempts st' = 0)"
    using backoff_schedule [OF h1 h2 h3 h4, of 4 "feed_tracker\<lparr>connection_attempts := 3\<rparr>"
        refused None "feed_tracker\<lparr>connection_attempts := 7\<rparr>" accepted]
      s l p
    by simp
  have t2: "retry_delay (connect_ws refused
          (feed_tracker\<lparr>connection_attempts := 3, reconnect_timeout := Some 1\<rparr>)) = Some 15000"
    using backoff_schedule [OF h1 h2 h3 h4, of 4 "feed_tracker\<lparr>connection_attempts := 3\<rparr>"
        refused "Some 1" "feed_tracker\<lparr>connection_attempts := 7\<rparr>" accepted]
      p
    by simp
  show ?thesis using m t1 t2 h1 h2 h3 h4 p q by (simp add: list_all_iff)
qed

text \<open>
  C6. In a run of consecutive failed attempts that starts with the counter at 0, the
  restart is invoked exactly once if the run reaches fifteen failures and not at all if
  it is shorter; it is the outcome of the fifteenth call and of no other, and no call
  is executed after it.
\<close>

theorem restart_exactly_once:
  assumes "\<forall>env \<in> set envs. failed_attempt env"
    and "base_url st \<noteq> []" and "\<not> fully_closed st" and "connection_attempts st = 0"
  shows "length (filter is_reboot (attempt_log envs st)) = (if 15 \<le> length envs then 1 else 0)
       \<and> (\<forall>i < length (attempt_log envs st). is_reboot (attempt_log envs st ! i) \<longleftrightarrow> i = 14)
       \<and> length (attempt_log envs st) = min (length envs) 15"
proof -
  note log = attempt_log_fresh [OF assms]
  have r: "is_reboot x \<longleftrightarrow> x = Rebooted" for x
    by (cases x) (simp_all add: is_reboot_def)
  have len: "length (attempt_log envs st) = min (length envs) 15" by (rule log(1))
  have idx: "\<forall>i < length (attempt_log envs st). is_reboot (attempt_log envs st ! i) \<longleftrightarrow> i = 14"
    using log(2) by (simp add: r)
  have "length (filter is_reboot (attempt_log envs st)) = (if 14 < length (attempt_log envs st) then 1 else 0)"
    by (rule count_single_index [OF idx])
  then show ?thesis using len idx by auto
qed


theorem restart_exactly_once_witness:
  "list_all failed_attempt (replicate 17 refused)
   \<and> base_url feed_tracker \<noteq> [] \<and> \<not> fully_closed feed_tracker
   \<and> connection_attempts feed_tracker = 0
   \<and> length (filter is_reboot (attempt_log (replicate 17 refused) feed_tracker)) = 1
   \<and> length (attempt_log (replicate 17 refused) feed_tracker) = 15
   \<and> length (filter is_reboot (attempt_log (replicate 14 refused) feed_tracker)) = 0"
proof -
  have h1: "\<forall>env \<in> set (replicate n refused). failed_attempt env" for n
    by (simp add: failed_attempt_def refused_def)
  have h2: "base_url feed_tracker \<noteq> []" and h3: "\<not> fully_closed feed_tracker"
    and h4: "connection_attempts feed_tracker = 0"
    by (simp_all add: feed_tracker_def initial_tracker_def)
  show ?thesis
    using restart_exactly_once [OF h1 h2 h3 h4, of 17] restart_exactly_once [OF h1 h2 h3 h4, of 14]
      h1 [of 17] h2 h3 h4
    by (simp add: list_all_iff)
qed

text \<open>
  C7, as stated, fails: with a feed URL configured, the connection not closed and the
  client not connected, a call made while the network link is down comes back with the
  counter at 1 and a retry scheduled after 5000 ms.
\<close>

theorem connect_no_link_counterexample:
  "connect_ws no_link feed_tracker \<noteq> Running feed_tracker
   \<and> attempts_of (connect_ws no_link feed_tracker) = Some 1
   \<and> retry_delay (connect_ws no_link feed_tracker) = Some 5000
   \<and> \<not> network_is_connected no_link"
  by (simp add: connect_ws_def no_link_def feed_tracker_def initial_tracker_def
      attempts_of_def retry_delay_def)

text \<open>
  C7, amended. \<^verbatim>\<open>connect_ws_\<close> changes nothing when no feed URL is configured, when
  the connection is fully closed, or when the client is already connected. When none of
  these holds and the network link is down, the transport is not asked to connect and
  the call is handled as a failed attempt: the last heartbeat is cleared, the counter is
  incremented, the error status is set from the third failure on, and either a retry
  is scheduled after \<open>min 15000 (n * 5000)\<close> ms or, at the fifteenth, the process
  restarts.
\<close>

theorem connect_noop_cases:
  "(base_url st = [] \<or> fully_closed st \<or> ws_available env \<longrightarrow> connect_ws env st = Running st)
   \<and> (base_url st \<noteq> [] \<and> \<not> fully_closed st \<and> \<not> ws_available env
        \<and> \<not> network_is_connected env \<longrightarrow>
      connect_ws env st =
        (if 15 \<le> connection_attempts st + 1 then Rebooted
         else Running (st\<lparr>last_heartbeat := 0,
                connection_attempts := connection_attempts st + 1,
                status_error := (if 3 \<le> connection_attempts st + 1
                                 then Some ''Failed to connect to WebSocket server''
                                 else status_error st),
                reconnect_timeout := Some (min 15000 ((connection_attempts st + 1) * 5000))\<rparr>)))"
proof (intro conjI impI)
  assume "base_url st = [] \<or> fully_closed st \<or> ws_available env"
  then show "connect_ws env st = Running st" by (auto simp: connect_ws_def)
next
  assume a: "base_url st \<noteq> [] \<and> \<not> fully_closed st \<and> \<not> ws_available env
        \<and> \<not> network_is_connected env"
  then have "failed_attempt env" by (simp add: failed_attempt_def)
  then show "connect_ws env st =
        (if 15 \<le> connection_attempts st + 1 then Rebooted
         else Running (st\<lparr>last_heartbeat := 0,
                connection_attempts := connection_attempts st + 1,
                status_error := (if 3 \<le> connection_attempts st + 1
                                 then Some ''Failed to connect to WebSocket server''
                                 else status_error st),
                reconnect_timeout := Some (min 15000 ((connection_attempts st + 1) * 5000))\<rparr>))"
    using a connect_ws_failed by blast
qed

theorem connect_noop_cases_witness:
  "fully_closed (feed_tracker\<lparr>fully_closed := True\<rparr>)
   \<and> connect_ws refused (feed_tracker\<lparr>fully_closed := True\<rparr>)
       = Running (feed_tracker\<lparr>fully_closed := True\<rparr>)
   \<and> base_url feed_tracker \<noteq> [] \<and> \<not> fully_closed feed_tracker \<and> \<not> ws_available no_link
   \<and> \<not> network_is_connected no_link
   \<and> attempts_of (connect_ws no_link feed_tracker) = Some 1"
proof -
  have a: "fully_closed (feed_tracker\<lparr>fully_closed := True\<rparr>)" by simp
  have b: "base_url feed_tracker \<noteq> [] \<and> \<not> fully_closed feed_tracker \<and> \<not> ws_available no_link
     \<and> \<not> network_is_connected no_link"
    by (simp add: feed_tracker_def initial_tracker_def no_link_def)
  have c: "connection_attempts feed_tracker = 0"
    by (simp add: feed_tracker_def initial_tracker_def)
  show ?thesis
    using connect_noop_cases [of "feed_tracker\<lparr>fully_closed := True\<rparr>" refused]
      connect_noop_cases [of feed_tracker no_link] a b c
    by (simp add: attempts_of_def)
qed

subsection \<open>Staleness watchdog\<close>

text \<open>The scan finds a stale trip exactly when the cache holds one.\<close>

lemma has_stale_trips_iff:
  "has_stale_trips now_ts ts \<longleftrightarrow> (\<exists>trip \<in> set ts. now_ts - departure_time trip > 60)"
  by (induction ts) auto

text \<open>
  C8, as stated, fails: with one cached trip that left 900 seconds before the (valid)
  current time, a run of the watchdog while the client is not connected triggers no
  reconnect and leaves the tracker as it was.
\<close>

theorem stale_disconnected_counterexample:
  "trips (initial_tracker\<lparr>trips := [departed_trip]\<rparr>) \<noteq> []
   \<and> is_valid clock_1000
   \<and> timestamp clock_1000 - departure_time departed_trip > 60
   \<and> \<not> stale_trips_detected False clock_1000 (initial_tracker\<lparr>trips := [departed_trip]\<rparr>)
   \<and> check_stale_trips False clock_1000 refused (initial_tracker\<lparr>trips := [departed_trip]\<rparr>)
       = Running (initial_tracker\<lparr>trips := [departed_trip]\<rparr>)"
  by (simp add: stale_trips_detected_def check_stale_trips_def clock_1000_def departed_trip_def)

text \<open>
  C8, amended. A run of the watchdog triggers the forced reconnect exactly when the
  client is connected, the cache is not empty, the clock is valid and some cached trip's
  departure time is more than 60 seconds before the current time. If no cached trip's
  departure time is more than 60 seconds before the current time, no reconnect fires
  and the tracker is unchanged.
\<close>

theorem stale_watchdog:
  "(stale_trips_detected available now st \<longleftrightarrow>
      available \<and> trips st \<noteq> [] \<and> is_valid now
      \<and> (\<exists>trip \<in> set (trips st). timestamp now - departure_time trip > 60))
   \<and> ((\<forall>trip \<in> set (trips st). timestamp now - departure_time trip \<le> 60) \<longrightarrow>
        \<not> stale_trips_detected available now st
        \<and> check_stale_trips available now env st = Running st)
   \<and> (stale_trips_detected available now st \<longrightarrow>
        check_stale_trips available now env st = reconnect env st)"
  by (auto simp: stale_trips_detected_def check_stale_trips_def has_stale_trips_iff)

theorem stale_watchdog_witness:
  "stale_trips_detected True clock_1000 (feed_tracker\<lparr>trips := [departed_trip]\<rparr>)
   \<and> check_stale_trips True clock_1000 refused (feed_tracker\<lparr>trips := [departed_trip]\<rparr>)
       = reconnect refused (feed_tracker\<lparr>trips := [departed_trip]\<rparr>)
   \<and> attempts_of (check_stale_trips True clock_1000 refused (feed_tracker\<lparr>trips := [departed_trip]\<rparr>))
       = Some 1
   \<and> list_all (\<lambda>trip. timestamp \<lparr>timestamp = 160, is_valid = True\<rparr> - departure_time trip \<le> 60)
        (trips (feed_tracker\<lparr>trips := [departed_trip]\<rparr>))
   \<and> \<not> stale_trips_detected True \<lparr>timestamp = 160, is_valid = True\<rparr>
        (feed_tracker\<lparr>trips := [departed_trip]\<rparr>)"
proof -
  have a: "stale_trips_detected True clock_1000 (feed_tracker\<lparr>trips := [departed_trip]\<rparr>)"
    by (simp add: stale_trips_detected_def clock_1000_def departed_trip_def)
  have b: "\<forall>trip \<in> set (trips (feed_tracker\<lparr>trips := [departed_trip]\<rparr>)).
             timestamp \<lparr>timestamp = 160, is_valid = True\<rparr> - departure_time trip \<le> 60"
    by (simp add: departed_trip_def)
  have c: "attempts_of (reconnect refused (feed_tracker\<lparr>trips := [departed_trip]\<rparr>)) = Some 1"
    by (simp add: reconnect_def close_def connect_ws_def refused_def feed_tracker_def
        initial_tracker_def attempts_of_def)
  show ?thesis
    using stale_watchdog [of True clock_1000 "feed_tracker\<lparr>trips := [departed_trip]\<rparr>" refused]
      stale_watchdog [of True "\<lparr>timestamp = 160, is_valid = True\<rparr>"
        "feed_tracker\<lparr>trips := [departed_trip]\<rparr>" refused] a b c
    by (simp add: list_all_iff)
qed

subsection \<open>Pagination engine\<close>


lemma next_stop_empty: "stop_ids st = [] \<Longrightarrow> next_stop st = st"
  by (simp add: next_stop_def)









subsection \<open>Configuration tables\<close>

text \<open>
  \<open>map_put\<close> is the update of the table as a map, adds its key to the keys, and keeps
  the keys in strictly ascending order.
\<close>

lemma map_of_map_put: "map_of (map_put k v m) = (map_of m)(k \<mapsto> v)"
  by (induction m) (auto simp: fun_upd_twist)

lemma keys_map_put: "set (map fst (map_put k v m)) = insert k (set (map fst m))"
proof -
  have "fst ` set (map_put k v m) = dom (map_of (map_put k v m))"
    by (simp add: dom_map_of_conv_image_fst)
  also have "\<dots> = insert k (dom (map_of m))" by (simp add: map_of_map_put)
  also have "\<dots> = insert k (fst ` set m)" by (simp add: dom_map_of_conv_image_fst)
  finally show ?thesis by simp
qed

lemma sorted_map_put:
  "sorted_wrt (<) (map fst m) \<Longrightarrow> sorted_wrt (<) (map fst (map_put k v m))"
proof (induction m)
  case Nil
  then show ?case by simp
next
  case (Cons a m)
  obtain k' v' where a: "a = (k', v')" by (cases a)
  have ih: "sorted_wrt (<) (map fst (map_put k v m))" using Cons by simp
  have keys: "set (map fst (map_put k v m)) = insert k (set (map fst m))"
    by (rule keys_map_put)
  show ?case
  proof (cases "k < k'")
    case True
    then show ?thesis using Cons.prems a by auto
  next
    case False
    show ?thesis
    proof (cases "k = k'")
      case True
      then show ?thesis using Cons.prems a by simp
    next
      case ne: False
      then have "k' < k" using False by simp
      moreover have "\<forall>x \<in> set (map fst m). k' < x" using Cons.prems a by simp
      ultimately have "\<forall>x \<in> set (map fst (map_put k v m)). k' < x"
        unfolding keys by simp
      then show ?thesis using ih a False ne by simp
    qed
  qed
qed

text \<open>Entries stored one after the other: a later entry overrides an earlier one.\<close>

lemma map_of_put_all: "map_of (put_all kvs m) = map_of m ++ map_of (rev kvs)"
  unfolding put_all_def
proof (induction kvs arbitrary: m)
  case Nil
  then show ?case by simp
next
  case (Cons kv kvs)
  have "map_of (foldl (\<lambda>m kv. map_put (fst kv) (snd kv) m) (map_put (fst kv) (snd kv) m) kvs)
      = map_of (map_put (fst kv) (snd kv) m) ++ map_of (rev kvs)"
    by (rule Cons.IH)
  also have "\<dots> = (map_of m ++ [fst kv \<mapsto> snd kv]) ++ map_of (rev kvs)"
    by (simp add: map_of_map_put)
  also have "\<dots> = map_of m ++ map_of (rev (kv # kvs))"
    by (cases kv) simp
  finally show ?case by simp
qed

lemma sorted_put_all:
  "sorted_wrt (<) (map fst m) \<Longrightarrow> sorted_wrt (<) (map fst (put_all kvs m))"
  unfolding put_all_def
  by (induction kvs arbitrary: m) (simp_all add: sorted_map_put)

text \<open>The two loops store the entries of the accepted lines, in order.\<close>

lemma abbreviation_lines_eq:
  "abbreviation_lines split lines st =
     st\<lparr>abbreviations :=
          put_all (map abbreviation_entry
                    (filter (\<lambda>parts. length parts = 2) (map (\<lambda>line. split line (CHR '';'')) lines)))
            (abbreviations st)\<rparr>"
  by (induction lines arbitrary: st) (simp_all add: Let_def add_abbreviation_def put_all_def abbreviation_entry_def)


lemma route_style_lines_eq:
  "route_style_lines split lines st =
     (case style_entries (filter (\<lambda>parts. length parts = 3)
                           (map (\<lambda>line. split line (CHR '';'')) lines)) of
        Inl e \<Rightarrow> Inl e
      | Inr kvs \<Rightarrow> Inr (st\<lparr>route_styles := put_all kvs (route_styles st)\<rparr>))"
proof (induction lines arbitrary: st)
  case Nil
  then show ?case by (simp add: put_all_def)
next
  case (Cons line lines)
  show ?case
  proof (cases "length (split line (CHR '';'')) = 3")
    case False
    then show ?thesis using Cons.IH by (simp add: Let_def)
  next
    case True
    show ?thesis
    proof (cases "stoul16 (split line (CHR '';'') ! 2)")
      case (Inl e)
      then show ?thesis using True by (simp add: Let_def style_entry_def)
    next
      case (Inr color)
      then show ?thesis using True Cons.IH
        by (simp add: Let_def style_entry_def add_route_style_def put_all_def split: sum.splits)
    qed
  qed
qed

text \<open>
  C10. \<^verbatim>\<open>set_abbreviations_from_text\<close> changes the abbreviation table only, and the new
  table does not depend on the old one: as a map it holds exactly the entries of the
  lines that split into exactly 2 fields, a later line overriding an earlier one with
  the same key, and its keys are in ascending order. Lines with another number of
  fields contribute nothing and do not keep the other lines from being stored.
  \<^verbatim>\<open>set_route_styles_from_text\<close> does the same with the lines of exactly 3 fields, as
  long as the colour field of each of them converts; otherwise the call ends with the
  error of the first one that does not. This holds for every \<^verbatim>\<open>split\<close>.
\<close>

theorem tables_from_text:
  "set_abbreviations_from_text split text st
     = st\<lparr>abbreviations := abbreviations (set_abbreviations_from_text split text st)\<rparr>
   \<and> map_of (abbreviations (set_abbreviations_from_text split text st))
     = map_of (rev (map abbreviation_entry (accepted_lines split 2 text)))
   \<and> sorted_wrt (<) (map fst (abbreviations (set_abbreviations_from_text split text st)))
   \<and> (case style_entries (accepted_lines split 3 text) of
        Inl e \<Rightarrow> set_route_styles_from_text split text st = Inl e
      | Inr kvs \<Rightarrow>
          (\<exists>st'. set_route_styles_from_text split text st = Inr st'
             \<and> st' = st\<lparr>route_styles := route_styles st'\<rparr>
             \<and> map_of (route_styles st') = map_of (rev kvs)
             \<and> sorted_wrt (<) (map fst (route_styles st'))))"
proof (intro conjI)
  let ?pairs = "map abbreviation_entry (accepted_lines split 2 text)"
  have a: "set_abbreviations_from_text split text st = st\<lparr>abbreviations := put_all ?pairs []\<rparr>"
    by (simp add: set_abbreviations_from_text_def abbreviation_lines_eq accepted_lines_def)
  show "set_abbreviations_from_text split text st
     = st\<lparr>abbreviations := abbreviations (set_abbreviations_from_text split text st)\<rparr>"
    by (simp add: a)
  show "map_of (abbreviations (set_abbreviations_from_text split text st)) = map_of (rev ?pairs)"
    by (simp add: a map_of_put_all)
  show "sorted_wrt (<) (map fst (abbreviations (set_abbreviations_from_text split text st)))"
    using sorted_put_all [of "[]" ?pairs] by (simp add: a)
  have r: "set_route_styles_from_text split text st =
     (case style_entries (accepted_lines split 3 text) of
        Inl e \<Rightarrow> Inl e
      | Inr kvs \<Rightarrow> Inr (st\<lparr>route_styles := put_all kvs []\<rparr>))"
    by (simp add: set_route_styles_from_text_def route_style_lines_eq accepted_lines_def split: sum.splits)
  show "case style_entries (accepted_lines split 3 text) of
        Inl e \<Rightarrow> set_route_styles_from_text split text st = Inl e
      | Inr kvs \<Rightarrow>
          (\<exists>st'. set_route_styles_from_text split text st = Inr st'
             \<and> st' = st\<lparr>route_styles := route_styles st'\<rparr>
             \<and> map_of (route_styles st') = map_of (rev kvs)
             \<and> sorted_wrt (<) (map fst (route_styles st')))"
  proof (cases "style_entries (accepted_lines split 3 text)")
    case (Inl e)
    then show ?thesis using r by simp
  next
    case (Inr kvs)
    have "sorted_wrt (<) (map fst (put_all kvs ([] :: (string \<times> RouteStyle) list)))"
      using sorted_put_all [of "[]" kvs] by simp
    then show ?thesis using r Inr by (simp add: map_of_put_all)
  qed
qed

theorem tables_from_text_witness:
  "abbreviations (set_abbreviations_from_text split_fields abbreviation_text
      (add_abbreviation ''Old'' ''O'' initial_tracker))
     = [(''Avenue'', ''Ave''), (''Street'', ''Str'')]
   \<and> accepted_lines split_fields 2 abbreviation_text
     = [[''Street'', ''St''], [''Avenue'', ''Ave''], [''Street'', ''Str'']]
   \<and> map_of (abbreviations (set_abbreviations_from_text split_fields abbreviation_text
        (add_abbreviation ''Old'' ''O'' initial_tracker)))
     = map_of (rev (map abbreviation_entry (accepted_lines split_fields 2 abbreviation_text)))
   \<and> map (\<lambda>kv. (fst kv, style_name (snd kv)))
       (case set_route_styles_from_text split_fields route_style_text initial_tracker of
          Inl e \<Rightarrow> [] | Inr st' \<Rightarrow> route_styles st')
     = [(''10'', ''Ten''), (''2'', ''Two'')]"
proof -
  have a: "abbreviations (set_abbreviations_from_text split_fields abbreviation_text
      (add_abbreviation ''Old'' ''O'' initial_tracker))
     = [(''Avenue'', ''Ave''), (''Street'', ''Str'')]"
    by code_simp
  have b: "accepted_lines split_fields 2 abbreviation_text
     = [[''Street'', ''St''], [''Avenue'', ''Ave''], [''Street'', ''Str'']]"
    by code_simp
  have c: "map (\<lambda>kv. (fst kv, style_name (snd kv)))
       (case set_route_styles_from_text split_fields route_style_text initial_tracker of
          Inl e \<Rightarrow> [] | Inr st' \<Rightarrow> route_styles st')
     = [(''10'', ''Ten''), (''2'', ''Two'')]"
    by code_simp
  have d: "map_of (abbreviations (set_abbreviations_from_text split_fields abbreviation_text
        (add_abbreviation ''Old'' ''O'' initial_tracker)))
     = map_of (rev (map abbreviation_entry (accepted_lines split_fields 2 abbreviation_text)))"
    using tables_from_text [of split_fields abbreviation_text
        "add_abbreviation ''Old'' ''O'' initial_tracker"]
    by blast
  show ?thesis using a b c d by blast
qed

subsection \<open>Schedule decoder: abbreviations\<close>









subsection \<open>Schedule decoder: messages that are not accepted\<close>

text \<open>
  C4. A message whose payload does not decode (which includes a payload too large for
  the document buffer), or whose event is neither "heartbeat" nor "schedule", sets the
  error status and changes nothing else: the cache holds the trips it held before.
\<close>

theorem failing_message_keeps_cache:
  assumes "parsed = None
     \<or> (\<exists>root. parsed = Some root \<and> event_of root \<noteq> ''heartbeat'' \<and> event_of root \<noteq> ''schedule'')"
  shows "\<exists>st'. on_ws_message doc_mem parsed now_ms st = Inr st'
           \<and> status_error st' \<noteq> None
           \<and> trips st' = trips st
           \<and> st' = st\<lparr>status_error := status_error st'\<rparr>"
  using assms by (auto simp: on_ws_message_def Let_def)

theorem failing_message_keeps_cache_witness:
  "event_of (JObject [(''event'', JString ''ping'')]) \<noteq> ''heartbeat''
   \<and> event_of (JObject [(''event'', JString ''ping'')]) \<noteq> ''schedule''
   \<and> on_ws_message True (Some (JObject [(''event'', JString ''ping'')])) 7
        (feed_tracker\<lparr>trips := [departed_trip]\<rparr>)
     = Inr (feed_tracker\<lparr>trips := [departed_trip],
              status_error := Some ''Failed to parse schedule data''\<rparr>)
   \<and> (\<exists>st'. on_ws_message True None 7 (feed_tracker\<lparr>trips := [departed_trip]\<rparr>) = Inr st'
         \<and> status_error st' \<noteq> None \<and> trips st' = [departed_trip])"
proof -
  have a: "event_of (JObject [(''event'', JString ''ping'')]) \<noteq> ''heartbeat''"
    and b: "event_of (JObject [(''event'', JString ''ping'')]) \<noteq> ''schedule''"
    by (simp_all add: event_of_def)
  have c: "on_ws_message True (Some (JObject [(''event'', JString ''ping'')])) 7
        (feed_tracker\<lparr>trips := [departed_trip]\<rparr>)
     = Inr (feed_tracker\<lparr>trips := [departed_trip],
              status_error := Some ''Failed to parse schedule data''\<rparr>)"
    by (simp add: on_ws_message_def event_of_def)
  have n: "(None :: json option) = None
     \<or> (\<exists>root. (None :: json option) = Some root \<and> event_of root \<noteq> ''heartbeat''
           \<and> event_of root \<noteq> ''schedule'')" by simp
  have d: "\<exists>st'. on_ws_message True None 7 (feed_tracker\<lparr>trips := [departed_trip]\<rparr>) = Inr st'
         \<and> status_error st' \<noteq> None \<and> trips st' = [departed_trip]"
    using failing_message_keeps_cache [OF n, of True 7 "feed_tracker\<lparr>trips := [departed_trip]\<rparr>"]
    by auto
  show ?thesis using a b c d by blast
qed

subsection \<open>Schedule decoder: route colour\<close>

text \<open>
  On a string of hexadecimal digits alone, \<open>stoul16\<close> yields the positional value of
  the digits.
\<close>

lemma is_hex_plain:
  "is_hex c \<Longrightarrow> \<not> isspace c \<and> c \<noteq> CHR ''-'' \<and> c \<noteq> CHR ''+'' \<and> c \<noteq> CHR ''x'' \<and> c \<noteq> CHR ''X''"
  by (auto simp: is_hex_def hex_digit_def isspace_def)

lemma foldl_positional:
  "foldl (\<lambda>acc c. acc * 16 + the (hex_digit c)) a ds = a * 16 ^ length ds + positional_value ds"
  by (induction ds arbitrary: a) (simp_all add: algebra_simps)

lemma digits_value_positional: "digits_value ds = positional_value ds"
  by (simp add: digits_value_def foldl_positional)

lemma stoul16_hex:
  assumes "hex \<noteq> []" and "list_all is_hex hex" and "positional_value hex < 2 ^ 32"
  shows "stoul16 hex = Inr (of_int (positional_value hex))"
proof -
  obtain c cs where hex: "hex = c # cs" using assms(1) by (cases hex) auto
  have all: "\<forall>x \<in> set hex. is_hex x" using assms(2) by (simp add: list_all_iff)
  have c: "\<not> isspace c" "c \<noteq> CHR ''-''" "c \<noteq> CHR ''+''"
    using is_hex_plain [of c] all hex by simp_all
  have s1: "dropWhile isspace hex = hex" using c hex by simp
  have s2: "strip_sign hex = (False, hex)" using c hex by (simp add: strip_sign_def)
  have s3: "strip_0x hex = hex"
  proof (cases cs)
    case Nil
    then show ?thesis using hex by (simp add: strip_0x_def)
  next
    case (Cons x r)
    then have "is_hex x" using all hex by simp
    then have "x \<noteq> CHR ''x''" "x \<noteq> CHR ''X''" using is_hex_plain [of x] by simp_all
    then show ?thesis using hex Cons by (simp add: strip_0x_def split: list.splits)
  qed
  have tw: "takeWhile is_hex hex = hex" using all by simp
  have "stoul16 hex =
      (if hex = [] then Inl InvalidArgument
       else if digits_value hex \<ge> 2 ^ 32 then Inl OutOfRange
       else Inr (of_int (digits_value hex)))"
    unfolding stoul16_def s1 s2 by (simp add: s3 tw)
  then show ?thesis using assms(1) assms(3) by (simp add: digits_value_positional)
qed

text \<open>A valid entry decodes, to the colour and name the precedence rule gives.\<close>

lemma decode_trip_valid:
  assumes "valid_trip_entry trip"
  shows "\<exists>t. decode_trip st trip = Inr t
           \<and> route_color t = expected_route_color st trip
           \<and> route_name t = expected_route_name st trip
           \<and> route_id t = the (as_cstr (json_member trip ''routeId''))"
proof -
  from assms obtain hs sid rid rname where
    m: "json_member trip ''headsign'' = JString hs" "json_member trip ''stopId'' = JString sid"
       "json_member trip ''routeId'' = JString rid" "json_member trip ''routeName'' = JString rname"
    unfolding valid_trip_entry_def
    by (metis is_JString.elims(2))
  have col: "valid_routeColor (json_member trip ''routeColor'')"
    using assms by (simp add: valid_trip_entry_def)
  show ?thesis
  proof (cases "map_of (route_styles st) rid")
    case (Some route_style)
    then show ?thesis
      by (simp add: decode_trip_def m Let_def expected_route_color_def expected_route_name_def)
  next
    case None
    show ?thesis
    proof (cases "json_member trip ''routeColor''")
      case JNull
      then show ?thesis using None
        by (simp add: decode_trip_def m Let_def expected_route_color_def expected_route_name_def)
    next
      case (JString hex)
      then have "hex \<noteq> []" "list_all is_hex hex" "positional_value hex < 2 ^ 32"
        using col by simp_all
      then have "stoul16 hex = Inr (of_int (positional_value hex))" by (rule stoul16_hex)
      then show ?thesis using None JString
        by (simp add: decode_trip_def m Let_def expected_route_color_def expected_route_name_def)
    qed (use col in simp_all)
  qed
qed

lemma expected_ignores_trips:
  "expected_route_color (st\<lparr>trips := ts\<rparr>) trip = expected_route_color st trip"
  "expected_route_name (st\<lparr>trips := ts\<rparr>) trip = expected_route_name st trip"
  by (simp_all add: expected_route_color_def expected_route_name_def split: option.splits json.splits)

lemma decode_trips_valid:
  assumes "list_all valid_trip_entry entries"
  shows "\<exists>ts. decode_trips st entries = Inr ts \<and> length ts = length entries
           \<and> (\<forall>i < length entries.
                 route_color (ts ! i) = expected_route_color st (entries ! i)
               \<and> route_name (ts ! i) = expected_route_name st (entries ! i)
               \<and> route_id (ts ! i) = the (as_cstr (json_member (entries ! i) ''routeId'')))"
  using assms
proof (induction entries)
  case Nil
  then show ?case by simp
next
  case (Cons e es)
  then have "valid_trip_entry e" and "list_all valid_trip_entry es" by simp_all
  from decode_trip_valid [OF this(1), of st] obtain t where
    t: "decode_trip st e = Inr t" "route_color t = expected_route_color st e"
       "route_name t = expected_route_name st e"
       "route_id t = the (as_cstr (json_member e ''routeId''))" by blast
  from Cons.IH [OF \<open>list_all valid_trip_entry es\<close>] obtain ts where
    ts: "decode_trips st es = Inr ts" "length ts = length es"
      "\<forall>i < length es.
                 route_color (ts ! i) = expected_route_color st (es ! i)
               \<and> route_name (ts ! i) = expected_route_name st (es ! i)
               \<and> route_id (ts ! i) = the (as_cstr (json_member (es ! i) ''routeId''))" by blast
  have d: "decode_trips st (e # es) = Inr (t # ts)" using t(1) ts(1) by simp
  have n: "route_color ((t # ts) ! i) = expected_route_color st ((e # es) ! i)
               \<and> route_name ((t # ts) ! i) = expected_route_name st ((e # es) ! i)
               \<and> route_id ((t # ts) ! i) = the (as_cstr (json_member ((e # es) ! i) ''routeId''))"
    if "i < length (e # es)" for i
    using that t ts(3) by (cases i) simp_all
  show ?case using d ts(2) n by simp
qed

text \<open>
  C2. A "schedule" message whose trip entries are valid is decoded without error into
  as many trips as it has entries, in order, and every trip has the colour of the
  style of its route (and then also the name of the style) if the style table has its
  route; else the base-16 value of the entry's own colour if the entry has one; else
  the default route colour.
\<close>

theorem route_color_precedence:
  assumes "event_of root = ''schedule''"
    and "list_all valid_trip_entry (schedule_entries root)"
  shows "\<exists>st'. on_ws_message True (Some root) now_ms st = Inr st'
           \<and> length (trips st') = length (schedule_entries root)
           \<and> (\<forall>i < length (schedule_entries root).
                 route_color (trips st' ! i) = expected_route_color st (schedule_entries root ! i)
               \<and> route_name (trips st' ! i) = expected_route_name st (schedule_entries root ! i)
               \<and> route_id (trips st' ! i)
                   = the (as_cstr (json_member (schedule_entries root ! i) ''routeId'')))"
proof -
  from decode_trips_valid [OF assms(2), of "st\<lparr>trips := []\<rparr>"] obtain ts where
    ts: "decode_trips (st\<lparr>trips := []\<rparr>) (schedule_entries root) = Inr ts"
      "length ts = length (schedule_entries root)"
      "\<forall>i < length (schedule_entries root).
           route_color (ts ! i) = expected_route_color (st\<lparr>trips := []\<rparr>) (schedule_entries root ! i)
         \<and> route_name (ts ! i) = expected_route_name (st\<lparr>trips := []\<rparr>) (schedule_entries root ! i)
         \<and> route_id (ts ! i) = the (as_cstr (json_member (schedule_entries root ! i) ''routeId''))"
    by blast
  have "on_ws_message True (Some root) now_ms st = Inr (st\<lparr>trips := ts\<rparr>)"
    using assms(1) ts(1) by (simp add: on_ws_message_def)
  then show ?thesis using ts(2) ts(3) by (simp add: expected_ignores_trips)
qed

theorem route_color_precedence_witness:
  "event_of schedule_json = ''schedule''
   \<and> list_all valid_trip_entry (schedule_entries schedule_json)
   \<and> map_sum id (map (\<lambda>t. (route_id t, route_name t, route_color t)) \<circ> trips)
       (on_ws_message True (Some schedule_json) 7 airport_tracker)
     = Inr [(''r1'', ''Red Line'', Color_of 0xFF0000),
            (''r2'', ''10'', Color_of 0x00FF00),
            (''r3'', ''10'', Color_of 0x028e51)]
   \<and> map (expected_route_color airport_tracker) (schedule_entries schedule_json)
     = [Color_of 0xFF0000, Color_of 0x00FF00, default_route_color airport_tracker]
   \<and> (\<exists>st'. on_ws_message True (Some schedule_json) 7 airport_tracker = Inr st'
         \<and> length (trips st') = length (schedule_entries schedule_json))"
proof -
  have a: "event_of schedule_json = ''schedule''" by code_simp
  have b: "list_all valid_trip_entry (schedule_entries schedule_json)" by code_simp
  have c: "map_sum id (map (\<lambda>t. (route_id t, route_name t, route_color t)) \<circ> trips)
       (on_ws_message True (Some schedule_json) 7 airport_tracker)
     = Inr [(''r1'', ''Red Line'', Color_of 0xFF0000),
            (''r2'', ''10'', Color_of 0x00FF00),
            (''r3'', ''10'', Color_of 0x028e51)]" by code_simp
  have d: "map (expected_route_color airport_tracker) (schedule_entries schedule_json)
     = [Color_of 0xFF0000, Color_of 0x00FF00, default_route_color airport_tracker]" by code_simp
  have e: "\<exists>st'. on_ws_message True (Some schedule_json) 7 airport_tracker = Inr st'
         \<and> length (trips st') = length (schedule_entries schedule_json)"
    using route_color_precedence [OF a b, of 7 airport_tracker] by blast
  show ?thesis using a b c d e by blast
qed

end
